theory Spec2Isabelle
  imports Main "HOL-Library.Sublist"
begin

section \<open>Values, parameter maps and the collaborator\<close>

text \<open>
  A JavaScript value as far as this layer handles one. An object is the list of its own
  enumerable string-keyed entries in the order \<^verbatim>\<open>Object.entries\<close> yields them; the client never
  inspects a property value, it only passes values on.
\<close>

datatype val =
    VNull
  | VBool bool
  | VNum int
  | VStr string
  | VList "val list"
  | VObj "(string \<times> val) list"

type_synonym params = "(string \<times> val) list"

type_synonym session_id = nat

datatype mode = ReadMode | WriteMode

text \<open>The transaction object handed to a unit of work: it belongs to a session and a mode.\<close>

datatype transaction = Transaction session_id mode

text \<open>
  Every call the client makes on the collaborator, with what the collaborator answered.
  The list of events of a call is the observable behaviour of the client.
\<close>

datatype ('e, 'r) event =
    EvSession "'e + session_id"
  | EvExecuteRead session_id
  | EvExecuteWrite session_id
  | EvRun transaction string params "'e + 'r list"
  | EvClose session_id "'e option"

text \<open>
  The interfaces \<^verbatim>\<open>Driver\<close>, \<^verbatim>\<open>Session\<close>, \<^verbatim>\<open>Transaction\<close> and the record's \<^verbatim>\<open>toObject\<close> of
  \<^verbatim>\<open>types.ts\<close>, as a parameter of the client: the collaborator has a state \<open>'w\<close> of its own,
  every method may throw a value of type \<open>'e\<close>, and answers may depend on the state.
\<close>

record ('w, 'e, 'r, 'o) driver =
  session :: "'w \<Rightarrow> ('e + session_id) \<times> 'w"
  run :: "session_id \<Rightarrow> mode \<Rightarrow> string \<Rightarrow> params \<Rightarrow> 'w \<Rightarrow> ('e + 'r list) \<times> 'w"
  close :: "session_id \<Rightarrow> 'w \<Rightarrow> 'e option \<times> 'w"
  toObject :: "'r \<Rightarrow> 'o"

text \<open>The batch input \<^verbatim>\<open>{ query: string; params?: Record<string, any>; isWrite?: boolean }\<close>.\<close>

record operation =
  query :: string
  params :: "params option"
  isWrite :: "bool option"

section \<open>Calls on the collaborator\<close>

definition driver_session ::
  "('w, 'e, 'r, 'o) driver \<Rightarrow> 'w \<Rightarrow> ('e + session_id) \<times> ('e, 'r) event list \<times> 'w" where
  "driver_session d w = (case session d w of (r, w') \<Rightarrow> (r, [EvSession r], w'))"

definition tx_run ::
  "('w, 'e, 'r, 'o) driver \<Rightarrow> transaction \<Rightarrow> string \<Rightarrow> params \<Rightarrow> 'w
     \<Rightarrow> ('e + 'r list) \<times> ('e, 'r) event list \<times> 'w" where
  "tx_run d tx cypher ps w =
     (case tx of Transaction sid m \<Rightarrow>
        (case run d sid m cypher ps w of (r, w') \<Rightarrow> (r, [EvRun tx cypher ps r], w')))"

definition session_close ::
  "('w, 'e, 'r, 'o) driver \<Rightarrow> session_id \<Rightarrow> 'w \<Rightarrow> 'e option \<times> ('e, 'r) event list \<times> 'w" where
  "session_close d sid w = (case close d sid w of (c, w') \<Rightarrow> (c, [EvClose sid c], w'))"

text \<open>
  Modelled from the spec: \<^verbatim>\<open>Session.executeRead\<close> and \<^verbatim>\<open>Session.executeWrite\<close> belong to the
  driver, of which the repository holds only the interface and a test double. The spec's
  boundary says that they run \<open>work\<close> under the named consistency mode and return the work's
  result; the test double calls the callback once with the transaction.
\<close>

definition executeRead ::
  "session_id \<Rightarrow> (transaction \<Rightarrow> 'w \<Rightarrow> 'a \<times> ('e, 'r) event list \<times> 'w)
     \<Rightarrow> 'w \<Rightarrow> 'a \<times> ('e, 'r) event list \<times> 'w" where
  "executeRead sid work w =
     (case work (Transaction sid ReadMode) w of (r, evs, w') \<Rightarrow> (r, EvExecuteRead sid # evs, w'))"

text \<open>
  Modelled from the spec: \<^verbatim>\<open>Session.executeWrite\<close>, the same boundary in write mode.
\<close>

definition executeWrite ::
  "session_id \<Rightarrow> (transaction \<Rightarrow> 'w \<Rightarrow> 'a \<times> ('e, 'r) event list \<times> 'w)
     \<Rightarrow> 'w \<Rightarrow> 'a \<times> ('e, 'r) event list \<times> 'w" where
  "executeWrite sid work w =
     (case work (Transaction sid WriteMode) w of (r, evs, w') \<Rightarrow> (r, EvExecuteWrite sid # evs, w'))"

text \<open>
  \<^verbatim>\<open>try { body } finally { await session.close() }\<close>: the finaliser always runs after the
  body; when it throws, its error replaces the body's completion, otherwise the body's
  completion (value or error) stands.
\<close>

definition try_finally ::
  "('w \<Rightarrow> ('e + 'a) \<times> ('e, 'r) event list \<times> 'w)
     \<Rightarrow> ('w \<Rightarrow> 'e option \<times> ('e, 'r) event list \<times> 'w)
     \<Rightarrow> 'w \<Rightarrow> ('e + 'a) \<times> ('e, 'r) event list \<times> 'w" where
  "try_finally body finaliser w =
     (case body w of (r, evs1, w1) \<Rightarrow>
        (case finaliser w1 of (c, evs2, w2) \<Rightarrow>
           ((case c of Some e \<Rightarrow> Inl e | None \<Rightarrow> r), evs1 @ evs2, w2)))"

section \<open>The executor\<close>

text \<open>A parameter with the default value \<^verbatim>\<open>{}\<close>: absent means the empty map.\<close>

definition params_or_empty :: "params option \<Rightarrow> params" where
  "params_or_empty ps = (case ps of None \<Rightarrow> [] | Some p \<Rightarrow> p)"

definition read ::
  "('w, 'e, 'r, 'o) driver \<Rightarrow> string \<Rightarrow> params option \<Rightarrow> 'w
     \<Rightarrow> ('e + 'o list) \<times> ('e, 'r) event list \<times> 'w" where
  "read d cypher ps w =
     (case driver_session d w of
        (Inl e, evs0, w0) \<Rightarrow> (Inl e, evs0, w0)
      | (Inr sid, evs0, w0) \<Rightarrow>
          (case try_finally
                  (\<lambda>w. case executeRead sid (\<lambda>tx. tx_run d tx cypher (params_or_empty ps)) w of
                          (Inl e, evs, w') \<Rightarrow> (Inl e, evs, w')
                        | (Inr res, evs, w') \<Rightarrow> (Inr (map (toObject d) res), evs, w'))
                  (session_close d sid) w0 of
             (r, evs1, w1) \<Rightarrow> (r, evs0 @ evs1, w1)))"

definition write_tx ::
  "('w, 'e, 'r, 'o) driver \<Rightarrow> string \<Rightarrow> params option \<Rightarrow> 'w
     \<Rightarrow> ('e + 'o list) \<times> ('e, 'r) event list \<times> 'w" where
  "write_tx d cypher ps w =
     (case driver_session d w of
        (Inl e, evs0, w0) \<Rightarrow> (Inl e, evs0, w0)
      | (Inr sid, evs0, w0) \<Rightarrow>
          (case try_finally
                  (\<lambda>w. case executeWrite sid (\<lambda>tx. tx_run d tx cypher (params_or_empty ps)) w of
                          (Inl e, evs, w') \<Rightarrow> (Inl e, evs, w')
                        | (Inr res, evs, w') \<Rightarrow> (Inr (map (toObject d) res), evs, w'))
                  (session_close d sid) w0 of
             (r, evs1, w1) \<Rightarrow> (r, evs0 @ evs1, w1)))"

text \<open>
  \<^verbatim>\<open>results.length > 0 ? results[0] : null\<close>. The result is a JavaScript value of type
  \<^verbatim>\<open>T | null\<close>: \<open>VNull\<close> is JavaScript's null, and since \<^verbatim>\<open>T\<close> is the caller's choice a row's
  projection may itself be null.
\<close>

definition readSingle ::
  "('w, 'e, 'r, val) driver \<Rightarrow> string \<Rightarrow> params option \<Rightarrow> 'w
     \<Rightarrow> ('e + val) \<times> ('e, 'r) event list \<times> 'w" where
  "readSingle d cypher ps w =
     (case read d cypher (Some (params_or_empty ps)) w of
        (Inl e, evs, w') \<Rightarrow> (Inl e, evs, w')
      | (Inr results, evs, w') \<Rightarrow>
          (Inr (if length results > 0 then results ! 0 else VNull), evs, w'))"

definition writeSingle ::
  "('w, 'e, 'r, val) driver \<Rightarrow> string \<Rightarrow> params option \<Rightarrow> 'w
     \<Rightarrow> ('e + val) \<times> ('e, 'r) event list \<times> 'w" where
  "writeSingle d cypher ps w =
     (case write_tx d cypher (Some (params_or_empty ps)) w of
        (Inl e, evs, w') \<Rightarrow> (Inl e, evs, w')
      | (Inr results, evs, w') \<Rightarrow>
          (Inr (if length results > 0 then results ! 0 else VNull), evs, w'))"

section \<open>The query builder\<close>

definition nl :: char where
  "nl = CHR 0x0A"

text \<open>\<^verbatim>\<open>Array.prototype.join\<close> on an array of strings.\<close>

fun join :: "string \<Rightarrow> string list \<Rightarrow> string" where
  "join sep [] = []"
| "join sep [x] = x"
| "join sep (x # y # ys) = x @ sep @ join sep (y # ys)"

text \<open>The template literal \<^verbatim>\<open>cypher\<close> of \<^verbatim>\<open>createNode\<close>, line breaks and indentation included.\<close>

definition createNode_cypher :: "string \<Rightarrow> string \<Rightarrow> string" where
  "createNode_cypher label returnAlias =
     [nl] @ ''      CREATE ('' @ returnAlias @ '':'' @ label @ '' $properties)'' @
     [nl] @ ''      RETURN '' @ returnAlias @
     [nl] @ ''    ''"

definition createNode ::
  "('w, 'e, 'r, val) driver \<Rightarrow> string \<Rightarrow> val \<Rightarrow> string option \<Rightarrow> 'w
     \<Rightarrow> ('e + val) \<times> ('e, 'r) event list \<times> 'w" where
  "createNode d label properties returnAlias w =
     (let alias = (case returnAlias of None \<Rightarrow> ''n'' | Some a \<Rightarrow> a);
          cypher = createNode_cypher label alias
      in writeSingle d cypher (Some [(''properties'', properties)]) w)"

text \<open>The two template literals of \<^verbatim>\<open>findNodes\<close>.\<close>

definition findNodes_all_cypher :: "string \<Rightarrow> string \<Rightarrow> string" where
  "findNodes_all_cypher label returnAlias =
     ''MATCH ('' @ returnAlias @ '':'' @ label @ '') RETURN '' @ returnAlias"

definition whereConditions :: "string \<Rightarrow> params \<Rightarrow> string" where
  "whereConditions returnAlias properties =
     join '' AND '' (map (\<lambda>(key, _). returnAlias @ ''.'' @ key @ '' = $'' @ key) properties)"

definition findNodes_where_cypher :: "string \<Rightarrow> string \<Rightarrow> params \<Rightarrow> string" where
  "findNodes_where_cypher label returnAlias properties =
     [nl] @ ''      MATCH ('' @ returnAlias @ '':'' @ label @ '')'' @
     [nl] @ ''      WHERE '' @ whereConditions returnAlias properties @
     [nl] @ ''      RETURN '' @ returnAlias @
     [nl] @ ''    ''"

definition findNodes ::
  "('w, 'e, 'r, 'o) driver \<Rightarrow> string \<Rightarrow> params option \<Rightarrow> string option \<Rightarrow> 'w
     \<Rightarrow> ('e + 'o list) \<times> ('e, 'r) event list \<times> 'w" where
  "findNodes d label properties returnAlias w =
     (let alias = (case returnAlias of None \<Rightarrow> ''n'' | Some a \<Rightarrow> a)
      in case properties of
           None \<Rightarrow> read d (findNodes_all_cypher label alias) None w
         | Some props \<Rightarrow>
             if length (map fst props) = 0
             then read d (findNodes_all_cypher label alias) None w
             else read d (findNodes_where_cypher label alias props) (Some props) w)"

text \<open>The template literal of \<^verbatim>\<open>createRelationship\<close>.\<close>

definition createRelationship_cypher :: "string \<Rightarrow> string \<Rightarrow> string \<Rightarrow> string" where
  "createRelationship_cypher startNodeMatch endNodeMatch relationshipType =
     [nl] @ ''      MATCH '' @ startNodeMatch @
     [nl] @ ''      MATCH '' @ endNodeMatch @
     [nl] @ ''      CREATE (a)-[r:'' @ relationshipType @ '' $properties]->(b)'' @
     [nl] @ ''      RETURN a, r, b'' @
     [nl] @ ''    ''"

definition createRelationship ::
  "('w, 'e, 'r, val) driver \<Rightarrow> string \<Rightarrow> string \<Rightarrow> string \<Rightarrow> val option \<Rightarrow> 'w
     \<Rightarrow> ('e + val) \<times> ('e, 'r) event list \<times> 'w" where
  "createRelationship d startNodeMatch endNodeMatch relationshipType properties w =
     (let props = (case properties of None \<Rightarrow> VObj [] | Some p \<Rightarrow> p);
          cypher = createRelationship_cypher startNodeMatch endNodeMatch relationshipType
      in writeSingle d cypher (Some [(''properties'', props)]) w)"

section \<open>The batch orchestrator\<close>

text \<open>\<^verbatim>\<open>String.prototype.includes\<close>: does \<open>s\<close> hold \<open>search\<close> at some position.\<close>

fun includes_str :: "string \<Rightarrow> string \<Rightarrow> bool" where
  "includes_str [] search = (search = [])"
| "includes_str (c # cs) search = (prefix search (c # cs) \<or> includes_str cs search)"

definition needsWrite :: "operation list \<Rightarrow> bool" where
  "needsWrite operations = list_ex (\<lambda>op. includes_str (query op) ''CREATE'') operations"

text \<open>
  The body of the unit of work: the \<^verbatim>\<open>for\<close> loop over the operations. It threads the closure
  variable \<open>results\<close> and stops at the first \<open>run\<close> that throws; when the loop ends the work
  returns \<^verbatim>\<open>{ records: [] }\<close>. The value is the work's completion paired with \<open>results\<close>.
\<close>

fun batch_work ::
  "('w, 'e, 'r, 'o) driver \<Rightarrow> transaction \<Rightarrow> operation list \<Rightarrow> 'o list list \<Rightarrow> 'w
     \<Rightarrow> (('e + 'r list) \<times> 'o list list) \<times> ('e, 'r) event list \<times> 'w" where
  "batch_work d tx [] results w = ((Inr [], results), [], w)"
| "batch_work d tx (op # ops) results w =
     (case tx_run d tx (query op) (params_or_empty (params op)) w of
        (Inl e, evs, w') \<Rightarrow> ((Inl e, results), evs, w')
      | (Inr rows, evs, w') \<Rightarrow>
          (case batch_work d tx ops (results @ [map (toObject d) rows]) w' of
             (r, evs', w'') \<Rightarrow> (r, evs @ evs', w'')))"

definition batch ::
  "('w, 'e, 'r, 'o) driver \<Rightarrow> operation list \<Rightarrow> 'w
     \<Rightarrow> ('e + 'o list list) \<times> ('e, 'r) event list \<times> 'w" where
  "batch d operations w =
     (case driver_session d w of
        (Inl e, evs0, w0) \<Rightarrow> (Inl e, evs0, w0)
      | (Inr sid, evs0, w0) \<Rightarrow>
          (case try_finally
                  (\<lambda>w. case (if needsWrite operations
                              then executeWrite sid (\<lambda>tx. batch_work d tx operations [])
                              else executeRead sid (\<lambda>tx. batch_work d tx operations [])) w of
                          ((Inl e, results), evs, w') \<Rightarrow> (Inl e, evs, w')
                        | ((Inr _, results), evs, w') \<Rightarrow> (Inr results, evs, w'))
                  (session_close d sid) w0 of
             (r, evs1, w1) \<Rightarrow> (r, evs0 @ evs1, w1)))"

section \<open>Reading the events of a call\<close>

definition outcome_of :: "'a \<times> ('e, 'r) event list \<times> 'w \<Rightarrow> 'a" where
  "outcome_of x = fst x"

definition events_of :: "'a \<times> ('e, 'r) event list \<times> 'w \<Rightarrow> ('e, 'r) event list" where
  "events_of x = fst (snd x)"

fun ev_session :: "('e, 'r) event \<Rightarrow> ('e + session_id) list" where
  "ev_session (EvSession r) = [r]"
| "ev_session _ = []"

fun ev_close :: "('e, 'r) event \<Rightarrow> (session_id \<times> 'e option) list" where
  "ev_close (EvClose sid c) = [(sid, c)]"
| "ev_close _ = []"

fun ev_execute :: "('e, 'r) event \<Rightarrow> (mode \<times> session_id) list" where
  "ev_execute (EvExecuteRead sid) = [(ReadMode, sid)]"
| "ev_execute (EvExecuteWrite sid) = [(WriteMode, sid)]"
| "ev_execute _ = []"

fun ev_run_tx :: "('e, 'r) event \<Rightarrow> transaction list" where
  "ev_run_tx (EvRun tx q ps r) = [tx]"
| "ev_run_tx _ = []"

fun ev_run_call :: "('e, 'r) event \<Rightarrow> (string \<times> params) list" where
  "ev_run_call (EvRun tx q ps r) = [(q, ps)]"
| "ev_run_call _ = []"

fun ev_run_outcome :: "('e, 'r) event \<Rightarrow> ('e + 'r list) list" where
  "ev_run_outcome (EvRun tx q ps r) = [r]"
| "ev_run_outcome _ = []"

fun ev_run_rows :: "('e, 'r) event \<Rightarrow> 'r list list" where
  "ev_run_rows (EvRun tx q ps (Inr rows)) = [rows]"
| "ev_run_rows _ = []"

fun ev_acquired :: "('e, 'r) event \<Rightarrow> session_id list" where
  "ev_acquired (EvSession (Inr sid)) = [sid]"
| "ev_acquired _ = []"

text \<open>The answers of \<^verbatim>\<open>driver.session()\<close>, in call order.\<close>

definition sessions_of :: "('e, 'r) event list \<Rightarrow> ('e + session_id) list" where
  "sessions_of evs = concat (map ev_session evs)"

text \<open>The sessions the driver handed out.\<close>

definition acquired_of :: "('e, 'r) event list \<Rightarrow> session_id list" where
  "acquired_of evs = concat (map ev_acquired evs)"

text \<open>The sessions \<^verbatim>\<open>close()\<close> was called on, each with what the call answered.\<close>

definition closes_of :: "('e, 'r) event list \<Rightarrow> (session_id \<times> 'e option) list" where
  "closes_of evs = concat (map ev_close evs)"

text \<open>The calls of \<^verbatim>\<open>executeRead\<close> and \<^verbatim>\<open>executeWrite\<close>.\<close>

definition executes_of :: "('e, 'r) event list \<Rightarrow> (mode \<times> session_id) list" where
  "executes_of evs = concat (map ev_execute evs)"

text \<open>The calls of \<^verbatim>\<open>tx.run\<close>: the transactions, the arguments, the answers, the rows of the
  answers that were results.\<close>

definition run_txs :: "('e, 'r) event list \<Rightarrow> transaction list" where
  "run_txs evs = concat (map ev_run_tx evs)"

definition run_calls :: "('e, 'r) event list \<Rightarrow> (string \<times> params) list" where
  "run_calls evs = concat (map ev_run_call evs)"

definition run_outcomes :: "('e, 'r) event list \<Rightarrow> ('e + 'r list) list" where
  "run_outcomes evs = concat (map ev_run_outcome evs)"

definition run_rows :: "('e, 'r) event list \<Rightarrow> 'r list list" where
  "run_rows evs = concat (map ev_run_rows evs)"

text \<open>The arguments \<^verbatim>\<open>(op.query, op.params || {})\<close> of the \<open>run\<close> of one operation.\<close>

definition op_call :: "operation \<Rightarrow> string \<times> params" where
  "op_call op = (query op, params_or_empty (params op))"

section \<open>A test double\<close>

text \<open>
  A collaborator in the manner of the repository's test mocks: session 7, a \<open>run\<close> that
  throws on a query text holding \<open>BAD\<close>, answers no row on one holding \<open>NonExistent\<close> and
  otherwise answers one row echoing the query, a
  \<open>close\<close> that throws the given error if any. Its state counts the calls of \<open>run\<close>.
\<close>

definition testDriver :: "string option \<Rightarrow> (nat, string, params, val) driver" where
  "testDriver closeError =
     \<lparr> session = (\<lambda>w. (Inr 7, w)),
       run = (\<lambda>sid m q ps w.
                (if includes_str q ''BAD'' then Inl ''syntax error''
                 else if includes_str q ''NonExistent'' then Inr []
                 else Inr [[(''echo'', VStr q)]], Suc w)),
       close = (\<lambda>sid w. (closeError, w)),
       toObject = VObj \<rparr>"


section \<open>Basic facts\<close>

lemma includes_str_iff: "includes_str s search \<longleftrightarrow> (\<exists>pre post. s = pre @ search @ post)"
proof -
  have "includes_str s search \<longleftrightarrow> sublist search s"
    by (induction s) (simp_all add: sublist_Cons_right)
  then show ?thesis by (simp add: sublist_def)
qed

lemma params_or_empty_idem: "params_or_empty (Some (params_or_empty ps)) = params_or_empty ps"
  by (simp add: params_or_empty_def)

lemma read_acquired:
  assumes "session d w = (Inr sid, w0)"
    and "run d sid ReadMode cypher (params_or_empty ps) w0 = (r, w1)"
    and "close d sid w1 = (c, w2)"
  shows "read d cypher ps w =
    ((case c of Some e \<Rightarrow> Inl e | None \<Rightarrow> (case r of Inl e \<Rightarrow> Inl e | Inr res \<Rightarrow> Inr (map (toObject d) res))),
     [EvSession (Inr sid), EvExecuteRead sid,
      EvRun (Transaction sid ReadMode) cypher (params_or_empty ps) r, EvClose sid c], w2)"
  using assms
  by (simp add: read_def driver_session_def try_finally_def executeRead_def tx_run_def
      session_close_def split: sum.splits option.splits)

lemma read_not_acquired:
  assumes "session d w = (Inl e, w0)"
  shows "read d cypher ps w = (Inl e, [EvSession (Inl e)], w0)"
  using assms by (simp add: read_def driver_session_def)

lemma write_tx_acquired:
  assumes "session d w = (Inr sid, w0)"
    and "run d sid WriteMode cypher (params_or_empty ps) w0 = (r, w1)"
    and "close d sid w1 = (c, w2)"
  shows "write_tx d cypher ps w =
    ((case c of Some e \<Rightarrow> Inl e | None \<Rightarrow> (case r of Inl e \<Rightarrow> Inl e | Inr res \<Rightarrow> Inr (map (toObject d) res))),
     [EvSession (Inr sid), EvExecuteWrite sid,
      EvRun (Transaction sid WriteMode) cypher (params_or_empty ps) r, EvClose sid c], w2)"
  using assms
  by (simp add: write_tx_def driver_session_def try_finally_def executeWrite_def tx_run_def
      session_close_def split: sum.splits option.splits)

lemma write_tx_not_acquired:
  assumes "session d w = (Inl e, w0)"
  shows "write_tx d cypher ps w = (Inl e, [EvSession (Inl e)], w0)"
  using assms by (simp add: write_tx_def driver_session_def)


lemma projections_simps:
  "sessions_of [] = []" "sessions_of (e # evs) = ev_session e @ sessions_of evs"
  "closes_of [] = []" "closes_of (e # evs) = ev_close e @ closes_of evs"
  "executes_of [] = []" "executes_of (e # evs) = ev_execute e @ executes_of evs"
  "run_txs [] = []" "run_txs (e # evs) = ev_run_tx e @ run_txs evs"
  "run_calls [] = []" "run_calls (e # evs) = ev_run_call e @ run_calls evs"
  "run_outcomes [] = []" "run_outcomes (e # evs) = ev_run_outcome e @ run_outcomes evs"
  "run_rows [] = []" "run_rows (e # evs) = ev_run_rows e @ run_rows evs"
  by (simp_all add: sessions_of_def closes_of_def executes_of_def run_txs_def run_calls_def
      run_outcomes_def run_rows_def)

lemma projections_append:
  "sessions_of (xs @ ys) = sessions_of xs @ sessions_of ys"
  "closes_of (xs @ ys) = closes_of xs @ closes_of ys"
  "executes_of (xs @ ys) = executes_of xs @ executes_of ys"
  "run_txs (xs @ ys) = run_txs xs @ run_txs ys"
  "run_calls (xs @ ys) = run_calls xs @ run_calls ys"
  "run_outcomes (xs @ ys) = run_outcomes xs @ run_outcomes ys"
  "run_rows (xs @ ys) = run_rows xs @ run_rows ys"
  by (simp_all add: sessions_of_def closes_of_def executes_of_def run_txs_def run_calls_def
      run_outcomes_def run_rows_def)

lemmas eval_defs =
  read_def write_tx_def readSingle_def writeSingle_def batch_def needsWrite_def
  driver_session_def try_finally_def executeRead_def executeWrite_def tx_run_def
  session_close_def params_or_empty_def outcome_of_def events_of_def testDriver_def
  op_call_def

lemma tx_run_events:
  assumes "tx_run d tx q ps w = (r, evs, w')"
  shows "evs = [EvRun tx q ps r]"
  using assms by (auto simp: tx_run_def split: transaction.splits prod.splits)

lemma batch_work_calls_prefix:
  assumes "batch_work d tx ops results w = (x, evs, w')"
  shows "prefix (run_calls evs) (map op_call ops)"
  using assms
proof (induction ops arbitrary: results w x evs w')
  case Nil
  then show ?case by (simp add: projections_simps)
next
  case (Cons op ops)
  obtain r e1 w1 where t: "tx_run d tx (query op) (params_or_empty (params op)) w = (r, e1, w1)"
    by (cases "tx_run d tx (query op) (params_or_empty (params op)) w")
  have e1: "e1 = [EvRun tx (query op) (params_or_empty (params op)) r]"
    using t by (rule tx_run_events)
  show ?case
  proof (cases r)
    case (Inl e)
    with Cons.prems t have "evs = e1" by auto
    with e1 show ?thesis
      by (simp add: projections_simps op_call_def)
  next
    case (Inr rows)
    obtain y e2 w2 where b: "batch_work d tx ops (results @ [map (toObject d) rows]) w1 = (y, e2, w2)"
      by (cases "batch_work d tx ops (results @ [map (toObject d) rows]) w1")
    from Cons.IH [OF b] Cons.prems t e1 Inr b show ?thesis
      by (auto simp: projections_simps op_call_def)
  qed
qed

lemma batch_work_txs:
  assumes "batch_work d tx ops results w = (x, evs, w')"
  shows "evs = map (\<lambda>((q, ps), r). EvRun tx q ps r) (zip (run_calls evs) (run_outcomes evs))"
  using assms
proof (induction ops arbitrary: results w x evs w')
  case Nil
  then show ?case by (simp add: projections_simps)
next
  case (Cons op ops)
  obtain r e1 w1 where t: "tx_run d tx (query op) (params_or_empty (params op)) w = (r, e1, w1)"
    by (cases "tx_run d tx (query op) (params_or_empty (params op)) w")
  have e1: "e1 = [EvRun tx (query op) (params_or_empty (params op)) r]"
    using t by (rule tx_run_events)
  show ?case
  proof (cases r)
    case (Inl e)
    with Cons.prems t e1 show ?thesis
      by (auto simp: projections_simps)
  next
    case (Inr rows)
    obtain y e2 w2 where b: "batch_work d tx ops (results @ [map (toObject d) rows]) w1 = (y, e2, w2)"
      by (cases "batch_work d tx ops (results @ [map (toObject d) rows]) w1")
    from Cons.IH [OF b] Cons.prems t e1 Inr b show ?thesis
      by (auto simp: projections_simps)
  qed
qed

lemma batch_work_ok:
  assumes "batch_work d tx ops results w = ((Inr x, res), evs, w')"
  shows "x = [] \<and> run_calls evs = map op_call ops
       \<and> run_outcomes evs = map Inr (run_rows evs)
       \<and> res = results @ map (map (toObject d)) (run_rows evs)"
  using assms
proof (induction ops arbitrary: results w evs w')
  case Nil
  then show ?case by (simp add: projections_simps)
next
  case (Cons op ops)
  obtain r e1 w1 where t: "tx_run d tx (query op) (params_or_empty (params op)) w = (r, e1, w1)"
    by (cases "tx_run d tx (query op) (params_or_empty (params op)) w")
  have e1: "e1 = [EvRun tx (query op) (params_or_empty (params op)) r]"
    using t by (rule tx_run_events)
  show ?case
  proof (cases r)
    case (Inl e)
    with Cons.prems t show ?thesis by simp
  next
    case (Inr rows)
    obtain y e2 w2 where b: "batch_work d tx ops (results @ [map (toObject d) rows]) w1 = (y, e2, w2)"
      by (cases "batch_work d tx ops (results @ [map (toObject d) rows]) w1")
    with Cons.prems t Inr have y: "y = (Inr x, res)" and evs: "evs = e1 @ e2" by auto
    from Cons.IH [OF b [unfolded y]] evs e1 Inr show ?thesis
      by (simp add: projections_simps op_call_def)
  qed
qed

lemma batch_work_fail:
  assumes "batch_work d tx ops results w = ((Inl e, res), evs, w')"
  shows "\<exists>pre q ps. evs = pre @ [EvRun tx q ps (Inl e)]
           \<and> run_outcomes pre = map Inr (run_rows pre)"
  using assms
proof (induction ops arbitrary: results w evs w')
  case Nil
  then show ?case by simp
next
  case (Cons op ops)
  obtain r e1 w1 where t: "tx_run d tx (query op) (params_or_empty (params op)) w = (r, e1, w1)"
    by (cases "tx_run d tx (query op) (params_or_empty (params op)) w")
  have e1: "e1 = [EvRun tx (query op) (params_or_empty (params op)) r]"
    using t by (rule tx_run_events)
  show ?case
  proof (cases r)
    case (Inl e')
    with Cons.prems t e1 have "evs = [] @ [EvRun tx (query op) (params_or_empty (params op)) (Inl e)]"
      by auto
    then show ?thesis by (metis projections_simps(11,13) list.simps(8))
  next
    case (Inr rows)
    obtain y e2 w2 where b: "batch_work d tx ops (results @ [map (toObject d) rows]) w1 = (y, e2, w2)"
      by (cases "batch_work d tx ops (results @ [map (toObject d) rows]) w1")
    with Cons.prems t Inr have y: "y = (Inl e, res)" and evs: "evs = e1 @ e2" by auto
    from Cons.IH [OF b [unfolded y]] obtain pre q ps where
      p: "e2 = pre @ [EvRun tx q ps (Inl e)]" "run_outcomes pre = map Inr (run_rows pre)"
      by blast
    have "evs = (e1 @ pre) @ [EvRun tx q ps (Inl e)]" using evs p by simp
    moreover have "run_outcomes (e1 @ pre) = map Inr (run_rows (e1 @ pre))"
      using p e1 Inr by (simp add: projections_simps)
    ultimately show ?thesis by blast
  qed
qed

lemma batch_acquired:
  assumes "session d w = (Inr sid, w0)"
    and "batch_work d (Transaction sid (if needsWrite ops then WriteMode else ReadMode)) ops [] w0
           = ((r, res), evs, w1)"
    and "close d sid w1 = (c, w2)"
  shows "batch d ops w =
    ((case c of Some e \<Rightarrow> Inl e | None \<Rightarrow> (case r of Inl e \<Rightarrow> Inl e | Inr x \<Rightarrow> Inr res)),
     EvSession (Inr sid) # (if needsWrite ops then EvExecuteWrite sid else EvExecuteRead sid)
       # evs @ [EvClose sid c], w2)"
  using assms
  by (cases "needsWrite ops")
    (simp_all add: batch_def driver_session_def try_finally_def executeRead_def executeWrite_def
      session_close_def split: sum.splits option.splits)

lemma batch_not_acquired:
  assumes "session d w = (Inl e, w0)"
  shows "batch d ops w = (Inl e, [EvSession (Inl e)], w0)"
  using assms by (simp add: batch_def driver_session_def)

lemma batch_work_only_runs:
  assumes "batch_work d tx ops results w = (x, evs, w')"
  shows "executes_of evs = [] \<and> sessions_of evs = [] \<and> closes_of evs = []
       \<and> set (run_txs evs) \<subseteq> {tx}"
proof -
  define zs where "zs = zip (run_calls evs) (run_outcomes evs)"
  have "evs = map (\<lambda>((q, ps), r). EvRun tx q ps r) zs"
    unfolding zs_def using assms by (rule batch_work_txs)
  then show ?thesis
    by (induction zs arbitrary: evs) (auto simp: projections_simps)
qed

lemma batch_work_isWrite:
  "batch_work d tx (map (\<lambda>op. op\<lparr>isWrite := f op\<rparr>) ops) results w = batch_work d tx ops results w"
  by (induction ops arbitrary: results w) (simp_all split: prod.splits sum.splits)

lemma needsWrite_query:
  "needsWrite ops = list_ex (\<lambda>q. includes_str q ''CREATE'') (map query ops)"
  by (simp add: needsWrite_def list_ex_iff)

section \<open>Session lifecycle of \<open>read\<close> and \<open>write\<close>\<close>

text \<open>
  C1. Every call of \<open>read\<close> or \<open>write\<close> asks the driver for a session exactly once, and
  \<open>close\<close> is called exactly once on each session the driver handed out and on nothing
  else, whatever the collaborator answers (the work succeeding or throwing is its answer
  to \<open>run\<close>). When the session was obtained, the call of \<open>close\<close> on it is the last thing the
  client does before it returns or throws.
\<close>

theorem read_write_close_session_exactly_once:
  "length (sessions_of (events_of (read d cypher ps w))) = 1
   \<and> map fst (closes_of (events_of (read d cypher ps w)))
       = acquired_of (events_of (read d cypher ps w))
   \<and> length (sessions_of (events_of (write_tx d cypher ps w))) = 1
   \<and> map fst (closes_of (events_of (write_tx d cypher ps w)))
       = acquired_of (events_of (write_tx d cypher ps w))
   \<and> (session d w = (Inr sid, w0) \<longrightarrow>
        acquired_of (events_of (read d cypher ps w)) = [sid]
        \<and> (\<exists>c. last (events_of (read d cypher ps w)) = EvClose sid c)
        \<and> acquired_of (events_of (write_tx d cypher ps w)) = [sid]
        \<and> (\<exists>c. last (events_of (write_tx d cypher ps w)) = EvClose sid c))"
proof -
  obtain a w0' where s: "session d w = (a, w0')"
    by (cases "session d w")
  have u: "length (sessions_of (events_of (read d cypher ps w))) = 1
   \<and> map fst (closes_of (events_of (read d cypher ps w)))
       = acquired_of (events_of (read d cypher ps w))
   \<and> length (sessions_of (events_of (write_tx d cypher ps w))) = 1
   \<and> map fst (closes_of (events_of (write_tx d cypher ps w)))
       = acquired_of (events_of (write_tx d cypher ps w))"
  proof (cases a)
    case (Inl e)
    with s have "session d w = (Inl e, w0')" by simp
    then show ?thesis
      by (simp add: read_not_acquired write_tx_not_acquired events_of_def projections_simps
          acquired_of_def)
  next
    case (Inr sid')
    with s have s': "session d w = (Inr sid', w0')" by simp
    obtain r w1 where r: "run d sid' ReadMode cypher (params_or_empty ps) w0' = (r, w1)"
      by (cases "run d sid' ReadMode cypher (params_or_empty ps) w0'")
    obtain c w2 where c: "close d sid' w1 = (c, w2)"
      by (cases "close d sid' w1")
    obtain r' w1' where r': "run d sid' WriteMode cypher (params_or_empty ps) w0' = (r', w1')"
      by (cases "run d sid' WriteMode cypher (params_or_empty ps) w0'")
    obtain c' w2' where c': "close d sid' w1' = (c', w2')"
      by (cases "close d sid' w1'")
    show ?thesis
      by (simp add: read_acquired [OF s' r c] write_tx_acquired [OF s' r' c']
          events_of_def projections_simps acquired_of_def)
  qed
  have v: "acquired_of (events_of (read d cypher ps w)) = [sid]
        \<and> (\<exists>c. last (events_of (read d cypher ps w)) = EvClose sid c)
        \<and> acquired_of (events_of (write_tx d cypher ps w)) = [sid]
        \<and> (\<exists>c. last (events_of (write_tx d cypher ps w)) = EvClose sid c)"
    if s': "session d w = (Inr sid, w0)"
  proof -
    obtain r w1 where r: "run d sid ReadMode cypher (params_or_empty ps) w0 = (r, w1)"
      by (cases "run d sid ReadMode cypher (params_or_empty ps) w0")
    obtain c w2 where c: "close d sid w1 = (c, w2)"
      by (cases "close d sid w1")
    obtain r' w1' where r': "run d sid WriteMode cypher (params_or_empty ps) w0 = (r', w1')"
      by (cases "run d sid WriteMode cypher (params_or_empty ps) w0")
    obtain c' w2' where c': "close d sid w1' = (c', w2')"
      by (cases "close d sid w1'")
    show ?thesis
      by (simp add: read_acquired [OF s' r c] write_tx_acquired [OF s' r' c']
          events_of_def acquired_of_def)
  qed
  from u v show ?thesis by blast
qed

theorem read_write_close_session_exactly_once_witness:
  "session (testDriver None) 0 = (Inr 7, 0)
   \<and> outcome_of (read (testDriver None) ''BAD'' None 0) = Inl ''syntax error''
   \<and> length (sessions_of (events_of (read (testDriver None) ''BAD'' None 0))) = 1
   \<and> map fst (closes_of (events_of (read (testDriver None) ''BAD'' None 0))) = [7]
   \<and> outcome_of (write_tx (testDriver None) ''RETURN 1'' None 0)
       = Inr [VObj [(''echo'', VStr ''RETURN 1'')]]
   \<and> length (sessions_of (events_of (write_tx (testDriver None) ''RETURN 1'' None 0))) = 1
   \<and> map fst (closes_of (events_of (write_tx (testDriver None) ''RETURN 1'' None 0))) = [7]"
proof -
  have h: "session (testDriver None) 0 = (Inr 7, 0)"
    by (simp add: testDriver_def)
  have o1: "outcome_of (read (testDriver None) ''BAD'' None 0) = Inl ''syntax error''"
    by (simp add: eval_defs)
  have o2: "outcome_of (write_tx (testDriver None) ''RETURN 1'' None 0)
      = Inr [VObj [(''echo'', VStr ''RETURN 1'')]]"
    by (simp add: eval_defs)
  from read_write_close_session_exactly_once [of "testDriver None" "''BAD''" None 0 7 0]
    read_write_close_session_exactly_once [of "testDriver None" "''RETURN 1''" None 0 7 0] h o1 o2
  show ?thesis by simp
qed

section \<open>Mode selection of \<open>batch\<close>\<close>

text \<open>
  C2. The mode of a batch depends on the query texts only: \<open>needsWrite\<close> holds exactly when
  some operation's query text has \<open>CREATE\<close> as a substring, two batches with the same query
  texts get the same mode, changing the \<open>isWrite\<close> flags changes nothing of what \<open>batch\<close>
  does, and a batch that obtained its session calls \<open>executeWrite\<close> once when \<open>needsWrite\<close>
  holds and \<open>executeRead\<close> once otherwise, every \<open>run\<close> going to the transaction of that mode.
\<close>

theorem batch_mode_from_query_texts:
  "(needsWrite ops \<longleftrightarrow> (\<exists>op \<in> set ops. \<exists>pre post. query op = pre @ ''CREATE'' @ post))
   \<and> (map query ops = map query ops' \<longrightarrow> needsWrite ops = needsWrite ops')
   \<and> batch d (map (\<lambda>op. op\<lparr>isWrite := f op\<rparr>) ops) w = batch d ops w
   \<and> (session d w = (Inr sid, w0) \<longrightarrow>
        executes_of (events_of (batch d ops w))
          = [(if needsWrite ops then WriteMode else ReadMode, sid)]
        \<and> set (run_txs (events_of (batch d ops w)))
          \<subseteq> {Transaction sid (if needsWrite ops then WriteMode else ReadMode)})"
proof -
  have a: "needsWrite ops \<longleftrightarrow> (\<exists>op \<in> set ops. \<exists>pre post. query op = pre @ ''CREATE'' @ post)"
    by (simp add: needsWrite_def list_ex_iff includes_str_iff)
  have b: "map query ops = map query ops' \<longrightarrow> needsWrite ops = needsWrite ops'"
    by (simp add: needsWrite_query)
  have n: "needsWrite (map (\<lambda>op. op\<lparr>isWrite := f op\<rparr>) ops) = needsWrite ops"
    by (simp add: needsWrite_query comp_def)
  have c: "batch d (map (\<lambda>op. op\<lparr>isWrite := f op\<rparr>) ops) w = batch d ops w"
    unfolding batch_def n batch_work_isWrite by (rule refl)
  have e: "executes_of (events_of (batch d ops w))
          = [(if needsWrite ops then WriteMode else ReadMode, sid)]
        \<and> set (run_txs (events_of (batch d ops w)))
          \<subseteq> {Transaction sid (if needsWrite ops then WriteMode else ReadMode)}"
    if s: "session d w = (Inr sid, w0)"
  proof -
    let ?tx = "Transaction sid (if needsWrite ops then WriteMode else ReadMode)"
    obtain r res evs w1 where bw: "batch_work d ?tx ops [] w0 = ((r, res), evs, w1)"
      by (metis surj_pair)
    obtain cl w2 where cl: "close d sid w1 = (cl, w2)"
      by (cases "close d sid w1")
    from batch_work_only_runs [OF bw] show ?thesis
      by (simp add: batch_acquired [OF s bw cl] events_of_def projections_simps
          projections_append)
  qed
  from a b c e show ?thesis by blast
qed

theorem batch_mode_from_query_texts_witness:
  "needsWrite [\<lparr>query = ''MATCH (n) SET n.x = 1'', params = None, isWrite = Some True\<rparr>] = False
   \<and> needsWrite [\<lparr>query = ''MATCH (n) RETURN n'', params = None, isWrite = Some False\<rparr>,
                 \<lparr>query = ''CREATE (m)'', params = None, isWrite = Some False\<rparr>] = True
   \<and> session (testDriver None) 0 = (Inr 7, 0)
   \<and> executes_of (events_of (batch (testDriver None)
        [\<lparr>query = ''MATCH (n) SET n.x = 1'', params = None, isWrite = Some True\<rparr>] 0))
       = [(ReadMode, 7)]
   \<and> set (run_txs (events_of (batch (testDriver None)
        [\<lparr>query = ''MATCH (n) SET n.x = 1'', params = None, isWrite = Some True\<rparr>] 0)))
       \<subseteq> {Transaction 7 ReadMode}"
proof -
  have h: "session (testDriver None) 0 = (Inr 7, 0)"
    by (simp add: testDriver_def)
  have n1: "needsWrite [\<lparr>query = ''MATCH (n) SET n.x = 1'', params = None, isWrite = Some True\<rparr>] = False"
    by (simp add: needsWrite_def)
  have n2: "needsWrite [\<lparr>query = ''MATCH (n) RETURN n'', params = None, isWrite = Some False\<rparr>,
                 \<lparr>query = ''CREATE (m)'', params = None, isWrite = Some False\<rparr>] = True"
    by (simp add: needsWrite_def)
  from batch_mode_from_query_texts
    [of "[\<lparr>query = ''MATCH (n) SET n.x = 1'', params = None, isWrite = Some True\<rparr>]"
       "[]" "testDriver None" "\<lambda>_. None" 0 7 0] h n1 n2
  show ?thesis by simp
qed

section \<open>Order and results of \<open>batch\<close>\<close>

lemma run_calls_outcomes_length: "length (run_calls evs) = length (run_outcomes evs)"
proof (induction evs)
  case Nil
  then show ?case by (simp add: projections_simps)
next
  case (Cons e evs)
  then show ?case by (cases e) (simp_all add: projections_simps)
qed

lemma batch_work_fail_outcomes:
  assumes "batch_work d tx ops results w = ((Inl e, res), evs, w')"
  shows "\<not> list_all (\<lambda>x. \<not> isl x) (run_outcomes evs)"
proof -
  from batch_work_fail [OF assms] obtain pre q ps where
    "evs = pre @ [EvRun tx q ps (Inl e)]" by blast
  then show ?thesis
    by (simp add: projections_append projections_simps)
qed

text \<open>
  C3. In a batch that obtained its session and in which no \<open>run\<close> threw, \<open>run\<close> was called
  once per operation, in input order, with the operation's query and its params map or
  the empty map. The value returned (which there is unless \<open>close\<close> throws) has the length
  of the input, and its \<open>i\<close>-th element is the projection of the rows the \<open>i\<close>-th \<open>run\<close> answered.
\<close>

theorem batch_runs_operations_in_order:
  assumes "session d w = (Inr sid, w0)"
    and "batch d ops w = (r, evs, w')"
    and "list_all (\<lambda>x. \<not> isl x) (run_outcomes evs)"
  shows "run_calls evs
           = map (\<lambda>op. (query op, case params op of None \<Rightarrow> [] | Some p \<Rightarrow> p)) ops
       \<and> length (run_rows evs) = length ops
       \<and> (closes_of evs = [(sid, None)] \<longrightarrow> r = Inr (map (map (toObject d)) (run_rows evs)))
       \<and> (\<forall>res. r = Inr res \<longrightarrow>
             length res = length ops
             \<and> (\<forall>i < length ops. res ! i = map (toObject d) (run_rows evs ! i)))"
proof -
  let ?tx = "Transaction sid (if needsWrite ops then WriteMode else ReadMode)"
  obtain x res evs1 w1 where bw: "batch_work d ?tx ops [] w0 = ((x, res), evs1, w1)"
    by (metis surj_pair)
  obtain c w2 where cl: "close d sid w1 = (c, w2)"
    by (cases "close d sid w1")
  note b = batch_acquired [OF assms(1) bw cl]
  from b assms(2) have evs: "evs = EvSession (Inr sid)
      # (if needsWrite ops then EvExecuteWrite sid else EvExecuteRead sid) # evs1 @ [EvClose sid c]"
    and r: "r = (case c of Some e \<Rightarrow> Inl e | None \<Rightarrow> (case x of Inl e \<Rightarrow> Inl e | Inr y \<Rightarrow> Inr res))"
    by simp_all
  have proj: "run_calls evs = run_calls evs1" "run_rows evs = run_rows evs1"
    "run_outcomes evs = run_outcomes evs1" "closes_of evs = closes_of evs1 @ [(sid, c)]"
    by (simp_all add: evs projections_simps projections_append)
  have "\<not> isl x"
  proof
    assume "isl x"
    then obtain e where "x = Inl e" by (cases x) simp_all
    with bw batch_work_fail_outcomes [of d ?tx ops "[]" w0 e res evs1 w1] assms(3) proj(3)
    show False by simp
  qed
  then obtain y where x: "x = Inr y" by (cases x) simp_all
  from batch_work_ok [OF bw [unfolded x]] have
    calls: "run_calls evs1 = map op_call ops"
    and res: "res = map (map (toObject d)) (run_rows evs1)"
    by simp_all
  have len: "length (run_rows evs1) = length ops"
  proof -
    have "run_outcomes evs1 = map Inr (run_rows evs1)"
      using batch_work_ok [OF bw [unfolded x]] by simp
    then have "length (run_rows evs1) = length (run_outcomes evs1)"
      by (metis length_map)
    also have "\<dots> = length (run_calls evs1)"
      by (simp add: run_calls_outcomes_length)
    also have "\<dots> = length ops"
      by (simp add: calls)
    finally show ?thesis .
  qed
  have no_close: "closes_of evs1 = []"
    using batch_work_only_runs [OF bw] by simp
  have c1: "run_calls evs
      = map (\<lambda>op. (query op, case params op of None \<Rightarrow> [] | Some p \<Rightarrow> p)) ops"
    using calls proj(1) by (simp add: op_call_def params_or_empty_def)
  have c3: "closes_of evs = [(sid, None)] \<longrightarrow> r = Inr (map (map (toObject d)) (run_rows evs))"
    using proj no_close r x res by simp
  have c4: "\<forall>res'. r = Inr res' \<longrightarrow>
             length res' = length ops
             \<and> (\<forall>i < length ops. res' ! i = map (toObject d) (run_rows evs ! i))"
    using r x res len proj(2) by (auto split: option.splits)
  from c1 len proj(2) c3 c4 show ?thesis by simp
qed

theorem batch_runs_operations_in_order_witness:
  "session (testDriver None) 0 = (Inr 7, 0)
   \<and> batch (testDriver None)
        [\<lparr>query = ''MATCH (n:Label1) RETURN n'', params = None, isWrite = None\<rparr>,
         \<lparr>query = ''MATCH (n:Label2) RETURN n'', params = Some [(''param'', VStr ''value'')],
           isWrite = None\<rparr>] 0
      = (Inr [[VObj [(''echo'', VStr ''MATCH (n:Label1) RETURN n'')]],
              [VObj [(''echo'', VStr ''MATCH (n:Label2) RETURN n'')]]],
         [EvSession (Inr 7), EvExecuteRead 7,
          EvRun (Transaction 7 ReadMode) ''MATCH (n:Label1) RETURN n'' []
            (Inr [[(''echo'', VStr ''MATCH (n:Label1) RETURN n'')]]),
          EvRun (Transaction 7 ReadMode) ''MATCH (n:Label2) RETURN n'' [(''param'', VStr ''value'')]
            (Inr [[(''echo'', VStr ''MATCH (n:Label2) RETURN n'')]]),
          EvClose 7 None], 2)
   \<and> run_calls [EvSession (Inr 7), EvExecuteRead 7,
          EvRun (Transaction 7 ReadMode) ''MATCH (n:Label1) RETURN n'' []
            (Inr [[(''echo'', VStr ''MATCH (n:Label1) RETURN n'')]]),
          EvRun (Transaction 7 ReadMode) ''MATCH (n:Label2) RETURN n'' [(''param'', VStr ''value'')]
            (Inr [[(''echo'', VStr ''MATCH (n:Label2) RETURN n'')]]),
          EvClose 7 (None :: string option)]
      = [(''MATCH (n:Label1) RETURN n'', []),
         (''MATCH (n:Label2) RETURN n'', [(''param'', VStr ''value'')])]"
proof -
  let ?ops = "[\<lparr>query = ''MATCH (n:Label1) RETURN n'', params = None, isWrite = None\<rparr>,
         \<lparr>query = ''MATCH (n:Label2) RETURN n'', params = Some [(''param'', VStr ''value'')],
           isWrite = None\<rparr>]"
  let ?evs = "[EvSession (Inr 7), EvExecuteRead 7,
          EvRun (Transaction 7 ReadMode) ''MATCH (n:Label1) RETURN n'' []
            (Inr [[(''echo'', VStr ''MATCH (n:Label1) RETURN n'')]]),
          EvRun (Transaction 7 ReadMode) ''MATCH (n:Label2) RETURN n'' [(''param'', VStr ''value'')]
            (Inr [[(''echo'', VStr ''MATCH (n:Label2) RETURN n'')]]),
          EvClose 7 (None :: string option)]"
  let ?res = "[[VObj [(''echo'', VStr ''MATCH (n:Label1) RETURN n'')]],
              [VObj [(''echo'', VStr ''MATCH (n:Label2) RETURN n'')]]]"
  have h: "session (testDriver None) 0 = (Inr 7, 0)"
    by (simp add: testDriver_def)
  have b: "batch (testDriver None) ?ops 0 = (Inr ?res, ?evs, 2)"
    by (simp add: eval_defs)
  have ok: "list_all (\<lambda>x. \<not> isl x) (run_outcomes ?evs)"
    by (simp add: projections_simps)
  from batch_runs_operations_in_order [OF h b ok] h b
  show ?thesis by simp
qed

section \<open>The empty batch\<close>

text \<open>
  C10. For the empty list of operations, a batch that obtained its session calls
  \<open>executeRead\<close>, never \<open>run\<close> nor \<open>executeWrite\<close>, and then \<open>close\<close> on that session, once;
  when \<open>close\<close> does not throw it returns the empty list.
\<close>

theorem batch_empty:
  assumes "session d w = (Inr sid, w0)"
    and "close d sid w0 = (c, w1)"
  shows "events_of (batch d [] w) = [EvSession (Inr sid), EvExecuteRead sid, EvClose sid c]
       \<and> (c = None \<longrightarrow> outcome_of (batch d [] w) = Inr [])"
proof -
  have n: "\<not> needsWrite []" by (simp add: needsWrite_def)
  have bw: "batch_work d (Transaction sid (if needsWrite [] then WriteMode else ReadMode)) [] [] w0
      = ((Inr [], []), [], w0)"
    by simp
  show ?thesis
    by (simp add: batch_acquired [OF assms(1) bw assms(2)] n events_of_def outcome_of_def)
qed

theorem batch_empty_witness:
  "session (testDriver None) 0 = (Inr 7, 0)
   \<and> close (testDriver None) 7 0 = (None, 0)
   \<and> events_of (batch (testDriver None) [] 0) = [EvSession (Inr 7), EvExecuteRead 7, EvClose 7 None]
   \<and> outcome_of (batch (testDriver None) [] 0) = Inr []"
proof -
  have h: "session (testDriver None) 0 = (Inr 7, 0)"
    by (simp add: testDriver_def)
  have c: "close (testDriver None) 7 0 = (None, 0)"
    by (simp add: testDriver_def)
  from batch_empty [OF h c] h c show ?thesis by simp
qed

section \<open>Failures\<close>

lemma all_results_map_Inr: "list_all (\<lambda>x. \<not> isl x) (map Inr rows)"
  by (simp add: list_all_iff)

text \<open>
  C9. When the work of a \<open>read\<close> or \<open>write\<close> throws \<open>e1\<close> and \<open>close\<close> then throws \<open>e2\<close>, the
  call of \<open>close\<close> comes after the failed \<open>run\<close>, and the caller receives \<open>e2\<close>: the error of
  the release replaces the error of the execution.
\<close>

theorem close_error_masks_execution_error:
  assumes "session d w = (Inr sid, w0)"
    and "close d sid w1 = (Some e2, w2)"
  shows "(run d sid ReadMode cypher (params_or_empty ps) w0 = (Inl e1, w1) \<longrightarrow>
            read d cypher ps w =
              (Inl e2,
               [EvSession (Inr sid), EvExecuteRead sid,
                EvRun (Transaction sid ReadMode) cypher (params_or_empty ps) (Inl e1),
                EvClose sid (Some e2)], w2))
       \<and> (run d sid WriteMode cypher (params_or_empty ps) w0 = (Inl e1, w1) \<longrightarrow>
            write_tx d cypher ps w =
              (Inl e2,
               [EvSession (Inr sid), EvExecuteWrite sid,
                EvRun (Transaction sid WriteMode) cypher (params_or_empty ps) (Inl e1),
                EvClose sid (Some e2)], w2))"
proof (intro conjI impI)
  assume "run d sid ReadMode cypher (params_or_empty ps) w0 = (Inl e1, w1)"
  from read_acquired [OF assms(1) this assms(2)]
  show "read d cypher ps w =
      (Inl e2,
       [EvSession (Inr sid), EvExecuteRead sid,
        EvRun (Transaction sid ReadMode) cypher (params_or_empty ps) (Inl e1),
        EvClose sid (Some e2)], w2)"
    by simp
next
  assume "run d sid WriteMode cypher (params_or_empty ps) w0 = (Inl e1, w1)"
  from write_tx_acquired [OF assms(1) this assms(2)]
  show "write_tx d cypher ps w =
      (Inl e2,
       [EvSession (Inr sid), EvExecuteWrite sid,
        EvRun (Transaction sid WriteMode) cypher (params_or_empty ps) (Inl e1),
        EvClose sid (Some e2)], w2)"
    by simp
qed

theorem close_error_masks_execution_error_witness:
  "session (testDriver (Some ''close failed'')) 0 = (Inr 7, 0)
   \<and> close (testDriver (Some ''close failed'')) 7 1 = (Some ''close failed'', 1)
   \<and> run (testDriver (Some ''close failed'')) 7 ReadMode ''BAD MATCH'' [] 0 = (Inl ''syntax error'', 1)
   \<and> run (testDriver (Some ''close failed'')) 7 WriteMode ''BAD MATCH'' [] 0 = (Inl ''syntax error'', 1)
   \<and> read (testDriver (Some ''close failed'')) ''BAD MATCH'' None 0 =
        (Inl ''close failed'',
         [EvSession (Inr 7), EvExecuteRead 7,
          EvRun (Transaction 7 ReadMode) ''BAD MATCH'' [] (Inl ''syntax error''),
          EvClose 7 (Some ''close failed'')], 1)
   \<and> write_tx (testDriver (Some ''close failed'')) ''BAD MATCH'' None 0 =
        (Inl ''close failed'',
         [EvSession (Inr 7), EvExecuteWrite 7,
          EvRun (Transaction 7 WriteMode) ''BAD MATCH'' [] (Inl ''syntax error''),
          EvClose 7 (Some ''close failed'')], 1)"
proof -
  let ?d = "testDriver (Some ''close failed'')"
  have h: "session ?d 0 = (Inr 7, 0)"
    by (simp add: testDriver_def)
  have c: "close ?d 7 1 = (Some ''close failed'', 1)"
    by (simp add: testDriver_def)
  have r1: "run ?d 7 ReadMode ''BAD MATCH'' (params_or_empty None) 0 = (Inl ''syntax error'', 1)"
    by (simp add: testDriver_def)
  have r2: "run ?d 7 WriteMode ''BAD MATCH'' (params_or_empty None) 0 = (Inl ''syntax error'', 1)"
    by (simp add: testDriver_def)
  from close_error_masks_execution_error [OF h c, of "''BAD MATCH''" None "''syntax error''"]
    h c r1 r2
  show ?thesis by (simp add: params_or_empty_def)
qed

text \<open>
  C8, as stated, fails where \<open>close\<close> throws as well: the work of this \<open>read\<close> throws
  \<open>syntax error\<close> and the caller receives \<open>close failed\<close>.
\<close>

theorem execution_error_not_propagated_counterexample:
  "run (testDriver (Some ''close failed'')) 7 ReadMode ''BAD'' [] 0 = (Inl ''syntax error'', 1)
   \<and> outcome_of (read (testDriver (Some ''close failed'')) ''BAD'' None 0) = Inl ''close failed''
   \<and> outcome_of (read (testDriver (Some ''close failed'')) ''BAD'' None 0) \<noteq> Inl ''syntax error''"
  by (simp add: eval_defs)

text \<open>
  C8, amended. When the work of a \<open>read\<close>, \<open>write\<close> or \<open>batch\<close> throws \<open>e\<close>, \<open>close\<close> is called on
  the session after the failed \<open>run\<close>, as the last event. When that \<open>close\<close> does not throw,
  the caller receives \<open>e\<close> itself; when it throws as well, the caller receives the error of
  \<open>close\<close>. In a batch the failed \<open>run\<close> is the first that failed and the last that was made:
  no later operation runs. Whatever happens, a batch that obtained its session calls
  \<open>close\<close> on it exactly once, as its last event.
\<close>

theorem execution_error_propagates_when_close_succeeds:
  assumes "session d w = (Inr sid, w0)"
  shows "(run d sid ReadMode cypher (params_or_empty ps) w0 = (Inl e, w1)
            \<and> close d sid w1 = (None, w2) \<longrightarrow>
            read d cypher ps w =
              (Inl e,
               [EvSession (Inr sid), EvExecuteRead sid,
                EvRun (Transaction sid ReadMode) cypher (params_or_empty ps) (Inl e),
                EvClose sid None], w2))
       \<and> (run d sid WriteMode cypher (params_or_empty ps) w0 = (Inl e, w1)
            \<and> close d sid w1 = (None, w2) \<longrightarrow>
            write_tx d cypher ps w =
              (Inl e,
               [EvSession (Inr sid), EvExecuteWrite sid,
                EvRun (Transaction sid WriteMode) cypher (params_or_empty ps) (Inl e),
                EvClose sid None], w2))
       \<and> (batch d ops w = (r, evs, w')
            \<and> \<not> list_all (\<lambda>x. \<not> isl x) (run_outcomes evs)
            \<and> closes_of evs = [(sid, None)] \<longrightarrow>
            (\<exists>e' pre tx q qs.
               r = Inl e'
               \<and> evs = pre @ [EvRun tx q qs (Inl e'), EvClose sid None]
               \<and> list_all (\<lambda>x. \<not> isl x) (run_outcomes pre)
               \<and> prefix (run_calls evs) (map op_call ops)))
       \<and> map fst (closes_of (events_of (batch d ops w))) = [sid]
       \<and> (\<exists>c. last (events_of (batch d ops w)) = EvClose sid c)
       \<and> (run d sid ReadMode cypher (params_or_empty ps) w0 = (Inl e, w1)
            \<and> close d sid w1 = (Some e2, w2) \<longrightarrow>
            read d cypher ps w =
              (Inl e2,
               [EvSession (Inr sid), EvExecuteRead sid,
                EvRun (Transaction sid ReadMode) cypher (params_or_empty ps) (Inl e),
                EvClose sid (Some e2)], w2))
       \<and> (run d sid WriteMode cypher (params_or_empty ps) w0 = (Inl e, w1)
            \<and> close d sid w1 = (Some e2, w2) \<longrightarrow>
            write_tx d cypher ps w =
              (Inl e2,
               [EvSession (Inr sid), EvExecuteWrite sid,
                EvRun (Transaction sid WriteMode) cypher (params_or_empty ps) (Inl e),
                EvClose sid (Some e2)], w2))
       \<and> (batch d ops w = (r, evs, w')
            \<and> \<not> list_all (\<lambda>x. \<not> isl x) (run_outcomes evs)
            \<and> closes_of evs = [(sid, Some e2)] \<longrightarrow>
            (\<exists>e' pre tx q qs.
               r = Inl e2
               \<and> evs = pre @ [EvRun tx q qs (Inl e'), EvClose sid (Some e2)]
               \<and> list_all (\<lambda>x. \<not> isl x) (run_outcomes pre)
               \<and> prefix (run_calls evs) (map op_call ops)))"
proof -
  have A: "read d cypher ps w =
      (Inl e,
       [EvSession (Inr sid), EvExecuteRead sid,
        EvRun (Transaction sid ReadMode) cypher (params_or_empty ps) (Inl e),
        EvClose sid None], w2)"
    if "run d sid ReadMode cypher (params_or_empty ps) w0 = (Inl e, w1)"
      and "close d sid w1 = (None, w2)"
    using read_acquired [OF assms that] by simp
  have B: "write_tx d cypher ps w =
      (Inl e,
       [EvSession (Inr sid), EvExecuteWrite sid,
        EvRun (Transaction sid WriteMode) cypher (params_or_empty ps) (Inl e),
        EvClose sid None], w2)"
    if "run d sid WriteMode cypher (params_or_empty ps) w0 = (Inl e, w1)"
      and "close d sid w1 = (None, w2)"
    using write_tx_acquired [OF assms that] by simp
  have A': "read d cypher ps w =
      (Inl e2,
       [EvSession (Inr sid), EvExecuteRead sid,
        EvRun (Transaction sid ReadMode) cypher (params_or_empty ps) (Inl e),
        EvClose sid (Some e2)], w2)"
    if "run d sid ReadMode cypher (params_or_empty ps) w0 = (Inl e, w1)"
      and "close d sid w1 = (Some e2, w2)"
    using read_acquired [OF assms that] by simp
  have B': "write_tx d cypher ps w =
      (Inl e2,
       [EvSession (Inr sid), EvExecuteWrite sid,
        EvRun (Transaction sid WriteMode) cypher (params_or_empty ps) (Inl e),
        EvClose sid (Some e2)], w2)"
    if "run d sid WriteMode cypher (params_or_empty ps) w0 = (Inl e, w1)"
      and "close d sid w1 = (Some e2, w2)"
    using write_tx_acquired [OF assms that] by simp
  let ?tx = "Transaction sid (if needsWrite ops then WriteMode else ReadMode)"
  let ?ex = "if needsWrite ops then EvExecuteWrite sid else EvExecuteRead sid"
  obtain x res evs1 w1' where bw: "batch_work d ?tx ops [] w0 = ((x, res), evs1, w1')"
    by (metis surj_pair)
  obtain c w2' where cl: "close d sid w1' = (c, w2')"
    by (cases "close d sid w1'")
  note b = batch_acquired [OF assms bw cl]
  have only: "closes_of evs1 = []"
    using batch_work_only_runs [OF bw] by simp
  have D: "map fst (closes_of (events_of (batch d ops w))) = [sid]
       \<and> (\<exists>c. last (events_of (batch d ops w)) = EvClose sid c)"
    using only by (simp add: b events_of_def projections_simps projections_append)
  have G: "\<exists>e' pre tx q qs.
               r = (case k of None \<Rightarrow> Inl e' | Some e2 \<Rightarrow> Inl e2)
               \<and> evs = pre @ [EvRun tx q qs (Inl e'), EvClose sid k]
               \<and> list_all (\<lambda>x. \<not> isl x) (run_outcomes pre)
               \<and> prefix (run_calls evs) (map op_call ops)"
    if bt: "batch d ops w = (r, evs, w')"
      and bad: "\<not> list_all (\<lambda>x. \<not> isl x) (run_outcomes evs)"
      and closed: "closes_of evs = [(sid, k)]" for k
  proof -
    from b bt have evs: "evs = EvSession (Inr sid) # ?ex # evs1 @ [EvClose sid c]"
      and r: "r = (case c of Some e \<Rightarrow> Inl e | None \<Rightarrow> (case x of Inl e \<Rightarrow> Inl e | Inr y \<Rightarrow> Inr res))"
      by simp_all
    have proj: "run_calls evs = run_calls evs1" "run_outcomes evs = run_outcomes evs1"
      "closes_of evs = closes_of evs1 @ [(sid, c)]"
      by (simp_all add: evs projections_simps projections_append)
    from closed proj(3) only have c: "c = k" by simp
    have "isl x"
    proof (rule ccontr)
      assume "\<not> isl x"
      then obtain y where "x = Inr y" by (cases x) simp_all
      with batch_work_ok [of d ?tx ops "[]" w0 y res evs1 w1'] bw
      have "run_outcomes evs1 = map Inr (run_rows evs1)" by simp
      then have "list_all (\<lambda>x. \<not> isl x) (run_outcomes evs)"
        by (simp only: proj(2) all_results_map_Inr)
      with bad show False by blast
    qed
    then obtain e' where x: "x = Inl e'" by (cases x) simp_all
    from batch_work_fail [OF bw [unfolded x]] obtain pre q qs where
      pre: "evs1 = pre @ [EvRun ?tx q qs (Inl e')]" "run_outcomes pre = map Inr (run_rows pre)"
      by blast
    have 1: "r = (case k of None \<Rightarrow> Inl e' | Some e2 \<Rightarrow> Inl e2)"
      using r c x by (simp split: option.splits)
    have 2: "evs = (EvSession (Inr sid) # ?ex # pre) @ [EvRun ?tx q qs (Inl e'), EvClose sid k]"
      using evs pre(1) c by simp
    have "run_outcomes (EvSession (Inr sid) # ?ex # pre) = run_outcomes pre"
      by (simp add: projections_simps)
    then have 3: "list_all (\<lambda>x. \<not> isl x) (run_outcomes (EvSession (Inr sid) # ?ex # pre))"
      by (simp only: pre(2) all_results_map_Inr)
    have 4: "prefix (run_calls evs) (map op_call ops)"
      using batch_work_calls_prefix [OF bw] proj(1) by simp
    from 1 2 3 4 show ?thesis by blast
  qed
  have C: "\<exists>e' pre tx q qs.
               r = Inl e'
               \<and> evs = pre @ [EvRun tx q qs (Inl e'), EvClose sid None]
               \<and> list_all (\<lambda>x. \<not> isl x) (run_outcomes pre)
               \<and> prefix (run_calls evs) (map op_call ops)"
    if "batch d ops w = (r, evs, w')"
      and "\<not> list_all (\<lambda>x. \<not> isl x) (run_outcomes evs)"
      and "closes_of evs = [(sid, None)]"
    using G [OF that] by simp
  have C': "\<exists>e' pre tx q qs.
               r = Inl e2
               \<and> evs = pre @ [EvRun tx q qs (Inl e'), EvClose sid (Some e2)]
               \<and> list_all (\<lambda>x. \<not> isl x) (run_outcomes pre)
               \<and> prefix (run_calls evs) (map op_call ops)"
    if "batch d ops w = (r, evs, w')"
      and "\<not> list_all (\<lambda>x. \<not> isl x) (run_outcomes evs)"
      and "closes_of evs = [(sid, Some e2)]"
    using G [OF that] by simp
  from A B C D A' B' C' show ?thesis by blast
qed

theorem execution_error_propagates_when_close_succeeds_witness:
  "session (testDriver None) 0 = (Inr 7, 0)
   \<and> session (testDriver (Some ''close failed'')) 0 = (Inr 7, 0)
   \<and> read (testDriver None) ''BAD'' None 0 =
       (Inl ''syntax error'',
        [EvSession (Inr 7), EvExecuteRead 7,
         EvRun (Transaction 7 ReadMode) ''BAD'' [] (Inl ''syntax error''),
         EvClose 7 None], 1)
   \<and> write_tx (testDriver None) ''BAD'' None 0 =
       (Inl ''syntax error'',
        [EvSession (Inr 7), EvExecuteWrite 7,
         EvRun (Transaction 7 WriteMode) ''BAD'' [] (Inl ''syntax error''),
         EvClose 7 None], 1)
   \<and> read (testDriver (Some ''close failed'')) ''BAD'' None 0 =
       (Inl ''close failed'',
        [EvSession (Inr 7), EvExecuteRead 7,
         EvRun (Transaction 7 ReadMode) ''BAD'' [] (Inl ''syntax error''),
         EvClose 7 (Some ''close failed'')], 1)
   \<and> write_tx (testDriver (Some ''close failed'')) ''BAD'' None 0 =
       (Inl ''close failed'',
        [EvSession (Inr 7), EvExecuteWrite 7,
         EvRun (Transaction 7 WriteMode) ''BAD'' [] (Inl ''syntax error''),
         EvClose 7 (Some ''close failed'')], 1)
   \<and> batch (testDriver None)
        [\<lparr>query = ''MATCH (a)'', params = None, isWrite = None\<rparr>,
         \<lparr>query = ''BAD'', params = None, isWrite = None\<rparr>,
         \<lparr>query = ''MATCH (c)'', params = None, isWrite = None\<rparr>] 0 =
       (Inl ''syntax error'',
        [EvSession (Inr 7), EvExecuteRead 7,
         EvRun (Transaction 7 ReadMode) ''MATCH (a)'' [] (Inr [[(''echo'', VStr ''MATCH (a)'')]]),
         EvRun (Transaction 7 ReadMode) ''BAD'' [] (Inl ''syntax error''),
         EvClose 7 None], 2)
   \<and> (\<exists>pre tx q qs.
         [EvSession (Inr 7), EvExecuteRead 7,
          EvRun (Transaction 7 ReadMode) ''MATCH (a)'' [] (Inr [[(''echo'', VStr ''MATCH (a)'')]]),
          EvRun (Transaction 7 ReadMode) ''BAD'' [] (Inl ''syntax error''),
          EvClose 7 None]
         = pre @ [EvRun tx q qs (Inl ''syntax error''), EvClose 7 None]
         \<and> list_all (\<lambda>x. \<not> isl x) (run_outcomes pre))
   \<and> batch (testDriver (Some ''close failed''))
        [\<lparr>query = ''MATCH (a)'', params = None, isWrite = None\<rparr>,
         \<lparr>query = ''BAD'', params = None, isWrite = None\<rparr>,
         \<lparr>query = ''MATCH (c)'', params = None, isWrite = None\<rparr>] 0 =
       (Inl ''close failed'',
        [EvSession (Inr 7), EvExecuteRead 7,
         EvRun (Transaction 7 ReadMode) ''MATCH (a)'' [] (Inr [[(''echo'', VStr ''MATCH (a)'')]]),
         EvRun (Transaction 7 ReadMode) ''BAD'' [] (Inl ''syntax error''),
         EvClose 7 (Some ''close failed'')], 2)
   \<and> (\<exists>e' pre tx q qs.
         [EvSession (Inr 7), EvExecuteRead 7,
          EvRun (Transaction 7 ReadMode) ''MATCH (a)'' [] (Inr [[(''echo'', VStr ''MATCH (a)'')]]),
          EvRun (Transaction 7 ReadMode) ''BAD'' [] (Inl ''syntax error''),
          EvClose 7 (Some ''close failed'')]
         = pre @ [EvRun tx q qs (Inl e'), EvClose 7 (Some ''close failed'')]
         \<and> list_all (\<lambda>x. \<not> isl x) (run_outcomes pre))"
proof -
  let ?d = "testDriver None"
  let ?f = "testDriver (Some ''close failed'')"
  let ?ops = "[\<lparr>query = ''MATCH (a)'', params = None, isWrite = None\<rparr>,
         \<lparr>query = ''BAD'', params = None, isWrite = None\<rparr>,
         \<lparr>query = ''MATCH (c)'', params = None, isWrite = None\<rparr>]"
  let ?evs = "[EvSession (Inr 7), EvExecuteRead 7,
         EvRun (Transaction 7 ReadMode) ''MATCH (a)'' [] (Inr [[(''echo'', VStr ''MATCH (a)'')]]),
         EvRun (Transaction 7 ReadMode) ''BAD'' [] (Inl ''syntax error''),
         EvClose 7 None]"
  let ?evf = "[EvSession (Inr 7), EvExecuteRead 7,
         EvRun (Transaction 7 ReadMode) ''MATCH (a)'' [] (Inr [[(''echo'', VStr ''MATCH (a)'')]]),
         EvRun (Transaction 7 ReadMode) ''BAD'' [] (Inl ''syntax error''),
         EvClose 7 (Some ''close failed'')]"
  have h: "session ?d 0 = (Inr 7, 0)"
    by (simp add: testDriver_def)
  have hf: "session ?f 0 = (Inr 7, 0)"
    by (simp add: testDriver_def)
  have r1: "run ?d 7 ReadMode ''BAD'' (params_or_empty None) 0 = (Inl ''syntax error'', 1)"
    by (simp add: testDriver_def)
  have r2: "run ?d 7 WriteMode ''BAD'' (params_or_empty None) 0 = (Inl ''syntax error'', 1)"
    by (simp add: testDriver_def)
  have c: "close ?d 7 1 = (None, 1)"
    by (simp add: testDriver_def)
  have b: "batch ?d ?ops 0 = (Inl ''syntax error'', ?evs, 2)"
    by (simp add: eval_defs)
  have bad: "\<not> list_all (\<lambda>x. \<not> isl x) (run_outcomes ?evs)"
    by (simp add: projections_simps)
  have closed: "closes_of ?evs = [(7, None)]"
    by (simp add: projections_simps)
  have f1: "run ?f 7 ReadMode ''BAD'' (params_or_empty None) 0 = (Inl ''syntax error'', 1)"
    by (simp add: testDriver_def)
  have f2: "run ?f 7 WriteMode ''BAD'' (params_or_empty None) 0 = (Inl ''syntax error'', 1)"
    by (simp add: testDriver_def)
  have cf: "close ?f 7 1 = (Some ''close failed'', 1)"
    by (simp add: testDriver_def)
  have bf: "batch ?f ?ops 0 = (Inl ''close failed'', ?evf, 2)"
    by (simp add: eval_defs)
  have badf: "\<not> list_all (\<lambda>x. \<not> isl x) (run_outcomes ?evf)"
    by (simp add: projections_simps)
  have closedf: "closes_of ?evf = [(7, Some ''close failed'')]"
    by (simp add: projections_simps)
  note t = execution_error_propagates_when_close_succeeds
    [OF h, of "''BAD''" None "''syntax error''" 1 1 ?ops "Inl ''syntax error''" ?evs 2]
  note u = execution_error_propagates_when_close_succeeds
    [OF hf, of "''BAD''" None "''syntax error''" 1 1 ?ops "Inl ''close failed''" ?evf 2
       "''close failed''"]
  have p1: "read ?d ''BAD'' None 0 =
       (Inl ''syntax error'',
        [EvSession (Inr 7), EvExecuteRead 7,
         EvRun (Transaction 7 ReadMode) ''BAD'' [] (Inl ''syntax error''),
         EvClose 7 None], 1)"
    using t r1 c by (simp add: params_or_empty_def)
  have p2: "write_tx ?d ''BAD'' None 0 =
       (Inl ''syntax error'',
        [EvSession (Inr 7), EvExecuteWrite 7,
         EvRun (Transaction 7 WriteMode) ''BAD'' [] (Inl ''syntax error''),
         EvClose 7 None], 1)"
    using t r2 c by (simp add: params_or_empty_def)
  have p3: "\<exists>pre tx q qs. ?evs = pre @ [EvRun tx q qs (Inl ''syntax error''), EvClose 7 None]
         \<and> list_all (\<lambda>x. \<not> isl x) (run_outcomes pre)"
    using t b bad closed by blast
  have q1: "read ?f ''BAD'' None 0 =
       (Inl ''close failed'',
        [EvSession (Inr 7), EvExecuteRead 7,
         EvRun (Transaction 7 ReadMode) ''BAD'' [] (Inl ''syntax error''),
         EvClose 7 (Some ''close failed'')], 1)"
    using u f1 cf by (simp add: params_or_empty_def)
  have q2: "write_tx ?f ''BAD'' None 0 =
       (Inl ''close failed'',
        [EvSession (Inr 7), EvExecuteWrite 7,
         EvRun (Transaction 7 WriteMode) ''BAD'' [] (Inl ''syntax error''),
         EvClose 7 (Some ''close failed'')], 1)"
    using u f2 cf by (simp add: params_or_empty_def)
  have q3: "\<exists>e' pre tx q qs. ?evf = pre @ [EvRun tx q qs (Inl e'), EvClose 7 (Some ''close failed'')]
         \<and> list_all (\<lambda>x. \<not> isl x) (run_outcomes pre)"
    using u bf badf closedf by blast
  from h hf p1 p2 q1 q2 b p3 bf q3 show ?thesis by blast
qed

section \<open>Single results\<close>

lemma read_default: "read d cypher (Some (params_or_empty ps)) w = read d cypher ps w"
  unfolding read_def params_or_empty_idem by (rule refl)

lemma write_tx_default: "write_tx d cypher (Some (params_or_empty ps)) w = write_tx d cypher ps w"
  unfolding write_tx_def params_or_empty_idem by (rule refl)

lemma read_calls:
  assumes "session d w = (Inr sid, w0)"
  shows "executes_of (events_of (read d cypher ps w)) = [(ReadMode, sid)]"
    and "run_calls (events_of (read d cypher ps w)) = [(cypher, params_or_empty ps)]"
proof -
  obtain r w1 where r: "run d sid ReadMode cypher (params_or_empty ps) w0 = (r, w1)"
    by (cases "run d sid ReadMode cypher (params_or_empty ps) w0")
  obtain c w2 where c: "close d sid w1 = (c, w2)"
    by (cases "close d sid w1")
  show "executes_of (events_of (read d cypher ps w)) = [(ReadMode, sid)]"
    and "run_calls (events_of (read d cypher ps w)) = [(cypher, params_or_empty ps)]"
    by (simp_all add: read_acquired [OF assms r c] events_of_def projections_simps)
qed

lemma write_tx_calls:
  assumes "session d w = (Inr sid, w0)"
  shows "executes_of (events_of (write_tx d cypher ps w)) = [(WriteMode, sid)]"
    and "run_calls (events_of (write_tx d cypher ps w)) = [(cypher, params_or_empty ps)]"
proof -
  obtain r w1 where r: "run d sid WriteMode cypher (params_or_empty ps) w0 = (r, w1)"
    by (cases "run d sid WriteMode cypher (params_or_empty ps) w0")
  obtain c w2 where c: "close d sid w1 = (c, w2)"
    by (cases "close d sid w1")
  show "executes_of (events_of (write_tx d cypher ps w)) = [(WriteMode, sid)]"
    and "run_calls (events_of (write_tx d cypher ps w)) = [(cypher, params_or_empty ps)]"
    by (simp_all add: write_tx_acquired [OF assms r c] events_of_def projections_simps)
qed

lemma readSingle_events: "events_of (readSingle d cypher ps w) = events_of (read d cypher ps w)"
  by (simp add: readSingle_def read_default events_of_def split: prod.splits sum.splits)

lemma writeSingle_events:
  "events_of (writeSingle d cypher ps w) = events_of (write_tx d cypher ps w)"
  by (simp add: writeSingle_def write_tx_default events_of_def split: prod.splits sum.splits)




section \<open>Query texts of the builder\<close>

text \<open>
  C5. \<open>createNode\<close> with the default alias is the write-single operation on the template text,
  which holds \<open>CREATE (n:\<close>, the label and \<open> $properties)\<close> in a row, with the parameter map
  that binds the caller's properties under the one name \<open>properties\<close>; with a session
  obtained, that text and that map are what \<open>run\<close> receives, once, under \<open>executeWrite\<close>.
\<close>

theorem createNode_query_and_params:
  "createNode d label properties None w
     = writeSingle d (createNode_cypher label ''n'') (Some [(''properties'', properties)]) w
   \<and> (\<exists>pre post. createNode_cypher label ''n''
         = pre @ ''CREATE (n:'' @ label @ '' $properties)'' @ post)
   \<and> (session d w = (Inr sid, w0) \<longrightarrow>
        executes_of (events_of (createNode d label properties None w)) = [(WriteMode, sid)]
        \<and> run_calls (events_of (createNode d label properties None w))
            = [(createNode_cypher label ''n'', [(''properties'', properties)])])"
proof -
  have a: "createNode d label properties None w
     = writeSingle d (createNode_cypher label ''n'') (Some [(''properties'', properties)]) w"
    by (simp add: createNode_def)
  have "createNode_cypher label ''n''
      = ([nl] @ ''      '') @ ''CREATE (n:'' @ label @ '' $properties)''
          @ ([nl] @ ''      RETURN n'' @ [nl] @ ''    '')"
    by (simp add: createNode_cypher_def)
  then have b: "\<exists>pre post. createNode_cypher label ''n''
         = pre @ ''CREATE (n:'' @ label @ '' $properties)'' @ post"
    by blast
  have c: "executes_of (events_of (createNode d label properties None w)) = [(WriteMode, sid)]
        \<and> run_calls (events_of (createNode d label properties None w))
            = [(createNode_cypher label ''n'', [(''properties'', properties)])]"
    if "session d w = (Inr sid, w0)"
    using write_tx_calls [OF that]
    by (simp add: a writeSingle_events params_or_empty_def)
  from a b c show ?thesis by blast
qed

theorem createNode_query_and_params_witness:
  "session (testDriver None) 0 = (Inr 7, 0)
   \<and> run_calls (events_of (createNode (testDriver None) ''Person''
        (VObj [(''name'', VStr ''John''), (''age'', VNum 30)]) None 0))
      = [(CHR 0x0A # ''      CREATE (n:Person $properties)'' @ CHR 0x0A # ''      RETURN n''
            @ CHR 0x0A # ''    '',
          [(''properties'', VObj [(''name'', VStr ''John''), (''age'', VNum 30)])])]
   \<and> executes_of (events_of (createNode (testDriver None) ''Person''
        (VObj [(''name'', VStr ''John''), (''age'', VNum 30)]) None 0)) = [(WriteMode, 7)]"
proof -
  have h: "session (testDriver None) 0 = (Inr 7, 0)"
    by (simp add: testDriver_def)
  note t = createNode_query_and_params
    [of "testDriver None" "''Person''" "VObj [(''name'', VStr ''John''), (''age'', VNum 30)]" 0 7 0]
  from t [THEN conjunct2, THEN conjunct2, THEN mp, OF h] h
  show ?thesis by (simp add: createNode_cypher_def nl_def)
qed

text \<open>
  C6. \<open>findNodes\<close> with the default alias and with properties absent or empty is the read of
  the text \<open>MATCH (n:label) RETURN n\<close> with the empty parameter map. With a non-empty
  properties map it is the read of the template text, which holds \<open>WHERE\<close> followed by the
  conditions \<open>n.k = $k\<close>, one per entry in order, joined by \<open> AND \<close>, and the parameter map is
  the properties map itself. With a session obtained, these are the arguments \<open>run\<close>
  receives, once, under \<open>executeRead\<close>.
\<close>

theorem findNodes_query_and_params:
  "findNodes d label None None w = read d (''MATCH (n:'' @ label @ '') RETURN n'') (Some []) w
   \<and> findNodes d label (Some []) None w
       = read d (''MATCH (n:'' @ label @ '') RETURN n'') (Some []) w
   \<and> (props \<noteq> [] \<longrightarrow>
        findNodes d label (Some props) None w
          = read d (findNodes_where_cypher label ''n'' props) (Some props) w
        \<and> (\<exists>pre post. findNodes_where_cypher label ''n'' props
              = pre @ ''WHERE ''
                  @ join '' AND '' (map (\<lambda>(k, v). ''n.'' @ k @ '' = $'' @ k) props) @ post))
   \<and> (session d w = (Inr sid, w0) \<longrightarrow>
        executes_of (events_of (findNodes d label properties None w)) = [(ReadMode, sid)]
        \<and> run_calls (events_of (findNodes d label None None w))
            = [(''MATCH (n:'' @ label @ '') RETURN n'', [])]
        \<and> run_calls (events_of (findNodes d label (Some []) None w))
            = [(''MATCH (n:'' @ label @ '') RETURN n'', [])]
        \<and> (props \<noteq> [] \<longrightarrow>
             run_calls (events_of (findNodes d label (Some props) None w))
               = [(findNodes_where_cypher label ''n'' props, props)]))"
proof -
  have dflt: "read d q None w = read d q (Some []) w" for q
    using read_default [of d q None w] by (simp add: params_or_empty_def)
  have a: "findNodes d label None None w
      = read d (''MATCH (n:'' @ label @ '') RETURN n'') (Some []) w"
    by (simp add: findNodes_def findNodes_all_cypher_def dflt)
  have b: "findNodes d label (Some []) None w
      = read d (''MATCH (n:'' @ label @ '') RETURN n'') (Some []) w"
    by (simp add: findNodes_def findNodes_all_cypher_def dflt)
  have c: "findNodes d label (Some props) None w
      = read d (findNodes_where_cypher label ''n'' props) (Some props) w" if "props \<noteq> []"
    using that by (simp add: findNodes_def)
  have "findNodes_where_cypher label ''n'' props
      = ([nl] @ ''      MATCH (n:'' @ label @ '')'' @ [nl] @ ''      '') @ ''WHERE ''
          @ join '' AND '' (map (\<lambda>(k, v). ''n.'' @ k @ '' = $'' @ k) props)
          @ ([nl] @ ''      RETURN n'' @ [nl] @ ''    '')"
    by (simp add: findNodes_where_cypher_def whereConditions_def)
  then have e: "\<exists>pre post. findNodes_where_cypher label ''n'' props
      = pre @ ''WHERE '' @ join '' AND '' (map (\<lambda>(k, v). ''n.'' @ k @ '' = $'' @ k) props) @ post"
    by blast
  have f: "executes_of (events_of (findNodes d label properties None w)) = [(ReadMode, sid)]"
    if s: "session d w = (Inr sid, w0)"
    using read_calls(1) [OF s]
    by (cases properties) (simp_all add: findNodes_def Let_def)
  have g: "run_calls (events_of (findNodes d label None None w))
            = [(''MATCH (n:'' @ label @ '') RETURN n'', [])]
        \<and> run_calls (events_of (findNodes d label (Some []) None w))
            = [(''MATCH (n:'' @ label @ '') RETURN n'', [])]"
    if s: "session d w = (Inr sid, w0)"
    using read_calls(2) [OF s]
    by (simp add: a b params_or_empty_def)
  have h: "run_calls (events_of (findNodes d label (Some props) None w))
               = [(findNodes_where_cypher label ''n'' props, props)]"
    if s: "session d w = (Inr sid, w0)" and "props \<noteq> []"
    using read_calls(2) [OF s] that(2)
    by (simp add: c params_or_empty_def)
  from a b c e f g h show ?thesis by blast
qed

theorem findNodes_query_and_params_witness:
  "session (testDriver None) 0 = (Inr 7, 0)
   \<and> [(''name'', VStr ''John''), (''age'', VNum 30)] \<noteq> []
   \<and> run_calls (events_of (findNodes (testDriver None) ''Person''
        (Some [(''name'', VStr ''John''), (''age'', VNum 30)]) None 0))
      = [(CHR 0x0A # ''      MATCH (n:Person)''
            @ CHR 0x0A # ''      WHERE n.name = $name AND n.age = $age''
            @ CHR 0x0A # ''      RETURN n''
            @ CHR 0x0A # ''    '',
          [(''name'', VStr ''John''), (''age'', VNum 30)])]
   \<and> run_calls (events_of (findNodes (testDriver None) ''Person'' None None 0))
      = [(''MATCH (n:Person) RETURN n'', [])]
   \<and> executes_of (events_of (findNodes (testDriver None) ''Person'' None None 0))
      = [(ReadMode, 7)]"
proof -
  have h: "session (testDriver None) 0 = (Inr 7, 0)"
    by (simp add: testDriver_def)
  have n: "[(''name'', VStr ''John''), (''age'', VNum 30)] \<noteq> []"
    by simp
  note t = findNodes_query_and_params
    [of "testDriver None" "''Person''" 0 "[(''name'', VStr ''John''), (''age'', VNum 30)]" 7 0 None]
  note u = t [THEN conjunct2, THEN conjunct2, THEN conjunct2, THEN mp, OF h]
  from u [THEN conjunct1] u [THEN conjunct2, THEN conjunct1]
    u [THEN conjunct2, THEN conjunct2, THEN conjunct2, THEN mp, OF n] h n
  show ?thesis
    by (simp add: findNodes_where_cypher_def whereConditions_def nl_def)
qed

text \<open>
  C7. \<open>createRelationship\<close> is the write-single operation on the template text, which holds
  \<open>CREATE (a)-[r:\<close>, the relationship type and \<open> $properties]->(b)\<close> in a row whatever the two
  match clauses are, with the parameter map that binds the given properties, or the empty
  map when they are absent, under the one name \<open>properties\<close>; with a session obtained, that
  text and that map are what \<open>run\<close> receives, once, under \<open>executeWrite\<close>.
\<close>

theorem createRelationship_query_and_params:
  "createRelationship d startNodeMatch endNodeMatch relationshipType properties w
     = writeSingle d (createRelationship_cypher startNodeMatch endNodeMatch relationshipType)
         (Some [(''properties'', case properties of None \<Rightarrow> VObj [] | Some p \<Rightarrow> p)]) w
   \<and> (\<exists>pre post. createRelationship_cypher startNodeMatch endNodeMatch relationshipType
         = pre @ ''CREATE (a)-[r:'' @ relationshipType @ '' $properties]->(b)'' @ post)
   \<and> (session d w = (Inr sid, w0) \<longrightarrow>
        executes_of (events_of
            (createRelationship d startNodeMatch endNodeMatch relationshipType properties w))
          = [(WriteMode, sid)]
        \<and> run_calls (events_of
            (createRelationship d startNodeMatch endNodeMatch relationshipType properties w))
          = [(createRelationship_cypher startNodeMatch endNodeMatch relationshipType,
              [(''properties'', case properties of None \<Rightarrow> VObj [] | Some p \<Rightarrow> p)])])"
proof -
  let ?q = "createRelationship_cypher startNodeMatch endNodeMatch relationshipType"
  let ?p = "[(''properties'', case properties of None \<Rightarrow> VObj [] | Some p \<Rightarrow> p)]"
  have a: "createRelationship d startNodeMatch endNodeMatch relationshipType properties w
     = writeSingle d ?q (Some ?p) w"
    by (simp add: createRelationship_def)
  have "?q = ([nl] @ ''      MATCH '' @ startNodeMatch @ [nl] @ ''      MATCH '' @ endNodeMatch
                @ [nl] @ ''      '')
             @ ''CREATE (a)-[r:'' @ relationshipType @ '' $properties]->(b)''
             @ ([nl] @ ''      RETURN a, r, b'' @ [nl] @ ''    '')"
    by (simp add: createRelationship_cypher_def)
  then have b: "\<exists>pre post. ?q
      = pre @ ''CREATE (a)-[r:'' @ relationshipType @ '' $properties]->(b)'' @ post"
    by blast
  have c: "executes_of (events_of
            (createRelationship d startNodeMatch endNodeMatch relationshipType properties w))
          = [(WriteMode, sid)]
        \<and> run_calls (events_of
            (createRelationship d startNodeMatch endNodeMatch relationshipType properties w))
          = [(?q, ?p)]"
    if "session d w = (Inr sid, w0)"
    using write_tx_calls [OF that]
    by (simp add: a writeSingle_events params_or_empty_def)
  from a b c show ?thesis by blast
qed

theorem createRelationship_query_and_params_witness:
  "session (testDriver None) 0 = (Inr 7, 0)
   \<and> run_calls (events_of (createRelationship (testDriver None)
        ''(x:Person {id: 1})'' ''(y:Movie {id: 2})'' ''ACTED_IN''
        (Some (VObj [(''role'', VStr ''Protagonist'')])) 0))
      = [(CHR 0x0A # ''      MATCH (x:Person {id: 1})''
            @ CHR 0x0A # ''      MATCH (y:Movie {id: 2})''
            @ CHR 0x0A # ''      CREATE (a)-[r:ACTED_IN $properties]->(b)''
            @ CHR 0x0A # ''      RETURN a, r, b''
            @ CHR 0x0A # ''    '',
          [(''properties'', VObj [(''role'', VStr ''Protagonist'')])])]
   \<and> executes_of (events_of (createRelationship (testDriver None)
        ''(x:Person {id: 1})'' ''(y:Movie {id: 2})'' ''ACTED_IN''
        (Some (VObj [(''role'', VStr ''Protagonist'')])) 0))
      = [(WriteMode, 7)]"
proof -
  have h: "session (testDriver None) 0 = (Inr 7, 0)"
    by (simp add: testDriver_def)
  note t = createRelationship_query_and_params
    [of "testDriver None" "''(x:Person {id: 1})''" "''(y:Movie {id: 2})''" "''ACTED_IN''"
       "Some (VObj [(''role'', VStr ''Protagonist'')])" 0 7 0]
  from t [THEN conjunct2, THEN conjunct2, THEN mp, OF h] h
  show ?thesis by (simp add: createRelationship_cypher_def nl_def)
qed

end
